theory Spec2Isabelle
  imports Complex_Main "HOL-Library.AList"
begin

section \<open>The CoFlow steady-state client (coflow.py)\<close>

text \<open>
  The client talks to a remote service through the \<open>requests\<close> module and sleeps
  between polls. The embedding makes both effects explicit: every function that performs
  a request or sleeps takes the trace of what has happened so far and returns the
  extended trace, and the remote service is a parameter, the stream of its replies.
  Python exceptions are values: a function returns \<open>Inl e\<close> where the source raises
  \<open>e\<close> and \<open>Inr v\<close> where it returns \<open>v\<close>. The two polling loops have no bound
  on their iterations; a call that never returns has the value \<open>None\<close>.
  Output written by \<open>print\<close> and \<open>debug_print\<close> and the text of exception
  messages (built by \<open>lookup_status_code\<close> from the table of the \<open>requests\<close>
  module) are not part of the model: exceptions are identified by their class.
\<close>

subsection \<open>Python values\<close>

text \<open>
  JSON documents as Python sees them after \<open>response.json()\<close>, and as it sends them.
  A \<open>JObj\<close> lists the items of a dict, so its keys are pairwise different. A float is
  carried as the number it denotes; the client never computes with one.
\<close>

datatype json =
    JNull
  | JBool bool
  | JInt int
  | JFloat real
  | JStr string
  | JList "json list"
  | JObj "(string \<times> json) list"

datatype error =
    AuthError
  | SessionError
  | CoFlowError
  | KeyError
  | IndexError
  | TypeError
  | ValueError
  | AttributeError
  | UnboundLocalError
  | JSONDecodeError
  | RequestException

text \<open>\<open>obj[key]\<close> with a string key: only a dict can be subscripted with one.\<close>

fun getitem :: "json \<Rightarrow> string \<Rightarrow> error + json" where
  "getitem (JObj kvs) k = (case map_of kvs k of None \<Rightarrow> Inl KeyError | Some v \<Rightarrow> Inr v)"
| "getitem _ k = Inl TypeError"

text \<open>\<open>for x in obj\<close>: a list yields its elements, a dict its keys, a string its characters.\<close>

fun py_iter :: "json \<Rightarrow> error + json list" where
  "py_iter (JList xs) = Inr xs"
| "py_iter (JObj kvs) = Inr (map (\<lambda>kv. JStr (fst kv)) kvs)"
| "py_iter (JStr s) = Inr (map (\<lambda>c. JStr [c]) s)"
| "py_iter _ = Inl TypeError"

text \<open>\<open>xs[i]\<close> on a list with a non-negative constant index.\<close>

definition list_index :: "'a list \<Rightarrow> nat \<Rightarrow> error + 'a" where
  "list_index xs i = (if i < length xs then Inr (xs ! i) else Inl IndexError)"

text \<open>\<open>s.split(sep)\<close> for a one-character separator: always at least one piece.\<close>

fun str_split :: "char \<Rightarrow> string \<Rightarrow> string list" where
  "str_split sep [] = [[]]"
| "str_split sep (c # cs) =
     (if c = sep then [] # str_split sep cs
      else (case str_split sep cs of
              [] \<Rightarrow> [[c]]
            | w # ws \<Rightarrow> (c # w) # ws))"

text \<open>
  \<open>s.replace(old, new)\<close>: every non-overlapping occurrence from the left; an empty
  \<open>old\<close> matches before every character and at the end.
\<close>

function str_replace :: "string \<Rightarrow> string \<Rightarrow> string \<Rightarrow> string" where
  "str_replace old new s =
     (if old = [] then new @ concat (map (\<lambda>c. c # new) s)
      else if s = [] then []
      else if take (length old) s = old
        then new @ str_replace old new (drop (length old) s)
      else hd s # str_replace old new (tl s))"
  by pat_completeness auto
termination
  by (relation "measure (\<lambda>(old, new, s). length s)") auto

declare str_replace.simps [simp del]

subsection \<open>urllib.parse.urlsplit\<close>

text \<open>
  A model of the standard library's \<open>urlsplit\<close> on \<open>str\<close> arguments, following the
  steps of the function in CPython 3.10: tab, carriage return and line feed are removed;
  a prefix of scheme characters before the first colon (not at position 0) is the scheme,
  lower-cased; after a leading \<open>//\<close> the network location runs up to the first of
  \<open>/\<close>, \<open>?\<close>, \<open>#\<close>, and an unbalanced square bracket in it raises ValueError;
  the fragment is cut at the first \<open>#\<close>, then the query at the first \<open>?\<close>. The
  final check of the network location rejects only characters that normalise to a
  delimiter, and no 8-bit character does. Later versions also strip leading control
  characters and spaces and validate a host written in square brackets; the concrete
  paths used in this theory start with a slash or a letter and have no such host, so
  those steps do not apply to them.
\<close>

record SplitResult =
  scheme :: string
  netloc :: string
  path :: string
  query :: string
  fragment :: string

definition scheme_chars :: string where
  "scheme_chars =
     ''abcdefghijklmnopqrstuvwxyz'' @ ''ABCDEFGHIJKLMNOPQRSTUVWXYZ'' @ ''0123456789'' @ ''+-.''"

definition ascii_lower :: "char \<Rightarrow> char" where
  "ascii_lower c =
     (if c \<in> set ''ABCDEFGHIJKLMNOPQRSTUVWXYZ''
      then char_of (of_char c + (32::nat)) else c)"

text \<open>Step 1: the characters removed from the URL before it is split.\<close>

definition remove_unsafe :: "string \<Rightarrow> string" where
  "remove_unsafe url = filter (\<lambda>c. c \<notin> {CHR 0x09, CHR 0x0D, CHR 0x0A}) url"

text \<open>
  Step 2: \<open>i = url.find(':')\<close>; when \<open>i > 0\<close> and \<open>url[:i]\<close> consists of scheme
  characters, the scheme is \<open>url[:i].lower()\<close> and the URL continues at \<open>url[i+1:]\<close>.
\<close>

definition split_scheme :: "string \<Rightarrow> string \<times> string" where
  "split_scheme url =
     (if CHR '':'' \<in> set url \<and> takeWhile (\<lambda>c. c \<noteq> CHR '':'') url \<noteq> []
         \<and> list_all (\<lambda>c. c \<in> set scheme_chars) (takeWhile (\<lambda>c. c \<noteq> CHR '':'') url)
      then (map ascii_lower (takeWhile (\<lambda>c. c \<noteq> CHR '':'') url),
            tl (dropWhile (\<lambda>c. c \<noteq> CHR '':'') url))
      else ([], url))"

text \<open>
  Step 3: when \<open>url[:2] == '//'\<close>, \<open>_splitnetloc(url, 2)\<close> cuts the network location
  at the first of \<open>/\<close>, \<open>?\<close>, \<open>#\<close> after the two slashes.
\<close>

definition split_netloc :: "string \<Rightarrow> string \<times> string" where
  "split_netloc url =
     (if take 2 url = ''//''
      then (takeWhile (\<lambda>c. c \<notin> set ''/?#'') (drop 2 url),
            dropWhile (\<lambda>c. c \<notin> set ''/?#'') (drop 2 url))
      else ([], url))"

definition unbalanced_brackets :: "string \<Rightarrow> bool" where
  "unbalanced_brackets nl =
     ((CHR ''['' \<in> set nl \<and> CHR '']'' \<notin> set nl) \<or> (CHR '']'' \<in> set nl \<and> CHR ''['' \<notin> set nl))"

text \<open>Steps 4 and 5: \<open>if c in url: url, rest = url.split(c, 1)\<close>.\<close>

definition split_once :: "char \<Rightarrow> string \<Rightarrow> string \<times> string" where
  "split_once c url =
     (if c \<in> set url
      then (takeWhile (\<lambda>x. x \<noteq> c) url, tl (dropWhile (\<lambda>x. x \<noteq> c) url))
      else (url, []))"

definition urlsplit :: "string \<Rightarrow> error + SplitResult" where
  "urlsplit url0 =
     (case split_scheme (remove_unsafe url0) of
        (sch, url2) \<Rightarrow>
          (case split_netloc url2 of
             (nl, url3) \<Rightarrow>
               if unbalanced_brackets nl then Inl ValueError
               else (case split_once CHR ''#'' url3 of
                       (url4, frag) \<Rightarrow>
                         (case split_once CHR ''?'' url4 of
                            (url5, qry) \<Rightarrow>
                              Inr \<lparr>scheme = sch, netloc = nl, path = url5,
                                   query = qry, fragment = frag\<rparr>))))"

subsection \<open>The transport\<close>

datatype http_method = POST | GET | DELETE

text \<open>
  What the client reads of a \<open>requests.Response\<close>: the status code, the
  \<open>Location\<close> header (\<open>headers.get\<close> gives None when it is absent) and the body as
  \<open>json()\<close> decodes it (\<open>None\<close> when the body is not JSON and \<open>json()\<close> raises).
\<close>

record response =
  status_code :: int
  location :: "string option"
  body :: "json option"

text \<open>A request either gets a response or fails in the transport (\<open>requests\<close> raises).\<close>

datatype reply = Unreachable | Reply response

text \<open>
  The observable actions of the client: a request with its method, URL, bearer token and
  JSON body, and a sleep with its duration in seconds.
\<close>

datatype event = Request http_method string string "json option" | Sleep nat

fun is_request :: "event \<Rightarrow> bool" where
  "is_request (Request m u k b) = True"
| "is_request (Sleep n) = False"

type_synonym trace = "event list"

text \<open>
  The remote service: its reply to the first request, to the second, and so on. The client
  is deterministic, so in one execution the service has no more freedom than the choice
  of this sequence, and a property that holds for every \<open>server\<close> holds whatever the
  service does. \<open>sent\<close> counts the requests in a trace, the index of the next reply.
\<close>

type_synonym server = "nat \<Rightarrow> reply"

definition sent :: "trace \<Rightarrow> nat" where
  "sent tr = length (filter is_request tr)"

definition requests_post ::
  "server \<Rightarrow> string \<Rightarrow> json \<Rightarrow> string \<Rightarrow> trace \<Rightarrow> reply \<times> trace" where
  "requests_post srv u js key tr = (srv (sent tr), tr @ [Request POST u key (Some js)])"

definition requests_get :: "server \<Rightarrow> string \<Rightarrow> string \<Rightarrow> trace \<Rightarrow> reply \<times> trace" where
  "requests_get srv u key tr = (srv (sent tr), tr @ [Request GET u key None])"

definition requests_delete :: "server \<Rightarrow> string \<Rightarrow> string \<Rightarrow> trace \<Rightarrow> reply \<times> trace" where
  "requests_delete srv u key tr = (srv (sent tr), tr @ [Request DELETE u key None])"

definition time_sleep :: "nat \<Rightarrow> trace \<Rightarrow> trace" where
  "time_sleep n tr = tr @ [Sleep n]"

subsection \<open>SteadyState\<close>

record SteadyState =
  steady_state_url :: string
  api_key :: string

text \<open>
  The polling loop of \<open>SteadyState.run\<close>: one iteration is one GET of the run status;
  the loop ends when \<open>done\<close> has been set, and sleeps one second otherwise.
\<close>

partial_function (option) run_poll ::
  "server \<Rightarrow> SteadyState \<Rightarrow> trace \<Rightarrow> ((error + unit) \<times> trace) option" where
  "run_poll srv self tr =
    (case requests_get srv (steady_state_url self @ ''/run'') (SteadyState.api_key self) tr of
       (Unreachable, tr1) \<Rightarrow> Some (Inl RequestException, tr1)
     | (Reply r, tr1) \<Rightarrow>
         if status_code r \<noteq> 200 then Some (Inl SessionError, tr1)
         else (case body r of
             None \<Rightarrow> Some (Inl JSONDecodeError, tr1)
           | Some status \<Rightarrow>
              (case getitem status ''status'' of
                 Inl e \<Rightarrow> Some (Inl e, tr1)
               | Inr run_status \<Rightarrow>
                  (case getitem status ''message'' of
                     Inl e \<Rightarrow> Some (Inl e, tr1)
                   | Inr status_msg \<Rightarrow>
                       if run_status = JStr ''Succeeded'' \<or> run_status = JStr ''Failed''
                       then Some (Inr (), tr1)
                       else run_poll srv self (time_sleep 1 tr1)))))"

declare run_poll.simps [code]

definition SteadyState_run ::
  "server \<Rightarrow> SteadyState \<Rightarrow> json \<Rightarrow> trace \<Rightarrow> ((error + unit) \<times> trace) option" where
  "SteadyState_run srv self vals tr =
    (case requests_post srv (steady_state_url self @ ''/run'') vals (SteadyState.api_key self) tr of
       (Unreachable, tr1) \<Rightarrow> Some (Inl RequestException, tr1)
     | (Reply r, tr1) \<Rightarrow>
         if status_code r \<noteq> 202 then Some (Inl SessionError, tr1)
         else run_poll srv self tr1)"

definition query ::
  "server \<Rightarrow> SteadyState \<Rightarrow> json \<Rightarrow> trace \<Rightarrow> (error + json) \<times> trace" where
  "query srv self request tr =
    (case requests_post srv (steady_state_url self @ ''/query'') request (SteadyState.api_key self) tr of
       (Unreachable, tr1) \<Rightarrow> (Inl RequestException, tr1)
     | (Reply r, tr1) \<Rightarrow>
         if status_code r \<noteq> 200 then (Inl SessionError, tr1)
         else (case body r of
             None \<Rightarrow> (Inl JSONDecodeError, tr1)
           | Some js \<Rightarrow> (Inr js, tr1)))"

subsection \<open>CoFlowSessionStatus\<close>

datatype CoFlowSessionStatus = Unknown | Pending | Running | Failed

fun status_value :: "CoFlowSessionStatus \<Rightarrow> int" where
  "status_value Unknown = 0"
| "status_value Pending = 100"
| "status_value Running = 200"
| "status_value Failed = 300"

text \<open>
  \<open>x == CoFlowSessionStatus.M\<close> for a decoded JSON value \<open>x\<close>: the comparison ends
  in the \<open>__eq__\<close> of the enumeration, which compares the member's value with an
  \<open>int\<close> (a \<open>bool\<close> is an \<open>int\<close>) and is identity on anything else.
\<close>

fun status_eq :: "CoFlowSessionStatus \<Rightarrow> json \<Rightarrow> bool" where
  "status_eq self (JInt n) = (status_value self = n)"
| "status_eq self (JBool b) = (status_value self = (if b then 1 else 0))"
| "status_eq self other = False"

subsection \<open>CoFlow\<close>

record CoFlow =
  url :: string
  api_key :: string

definition create_init_request :: "string \<Rightarrow> error + json" where
  "create_init_request p =
    (case urlsplit p of
       Inl ex \<Rightarrow> Inl ex
     | Inr pathAsUrl \<Rightarrow>
        (let components = str_split CHR ''/'' (path pathAsUrl);
             repo = netloc pathAsUrl
         in case list_index components 1 of
              Inl ex \<Rightarrow> Inl ex
            | Inr project \<Rightarrow>
               (case list_index components 2 of
                  Inl ex \<Rightarrow> Inl ex
                | Inr study \<Rightarrow>
                   (case list_index components 3 of
                      Inl ex \<Rightarrow> Inl ex
                    | Inr target_case \<Rightarrow>
                        Inr (JObj
                          [(''initializationInfo'', JObj
                              [(''repositoryName'', JStr repo),
                               (''projectName'', JStr project),
                               (''studyName'', JStr study)]),
                           (''editableInfo'', JObj
                              [(''systemOfUnits'', JStr ''SI''),
                               (''caseName'', JStr target_case)])])))))"

text \<open>
  \<open>_close_state_state_session\<close>: after the DELETE the source reads
  \<open>response.codes.OK\<close>; a \<open>requests.Response\<close> has no attribute \<open>codes\<close>
  (the table is \<open>requests.codes\<close>), so the comparison raises AttributeError.
\<close>

definition close_state_state_session ::
  "server \<Rightarrow> CoFlow \<Rightarrow> string \<Rightarrow> trace \<Rightarrow> (error + unit) \<times> trace" where
  "close_state_state_session srv self session_url tr =
    (case requests_delete srv session_url (CoFlow.api_key self) tr of
       (Unreachable, tr1) \<Rightarrow> (Inl RequestException, tr1)
     | (Reply r, tr1) \<Rightarrow> (Inl AttributeError, tr1))"

definition close_steady_state ::
  "server \<Rightarrow> CoFlow \<Rightarrow> SteadyState \<Rightarrow> trace \<Rightarrow> (error + unit) \<times> trace" where
  "close_steady_state srv self ss tr =
    (case requests_delete srv (steady_state_url ss @ ''/session'') (CoFlow.api_key self) tr of
       (Unreachable, tr1) \<Rightarrow> (Inl RequestException, tr1)
     | (Reply r, tr1) \<Rightarrow>
         if status_code r \<noteq> 202 then (Inl SessionError, tr1) else (Inr (), tr1))"

text \<open>
  The \<open>while True\<close> loop of \<open>open_steady_state\<close>. \<open>loc\<close> is what
  \<open>headers.get("Location")\<close> returned; \<open>self.url + location\<close> raises TypeError when
  it is None.
\<close>

partial_function (option) poll_status ::
  "server \<Rightarrow> CoFlow \<Rightarrow> string option \<Rightarrow> trace \<Rightarrow> ((error + unit) \<times> trace) option" where
  "poll_status srv self loc tr =
    (case loc of
       None \<Rightarrow> Some (Inl TypeError, tr)
     | Some l \<Rightarrow>
        (case requests_get srv (url self @ l) (CoFlow.api_key self) tr of
           (Unreachable, tr1) \<Rightarrow> Some (Inl RequestException, tr1)
         | (Reply r, tr1) \<Rightarrow>
             if status_code r \<noteq> 200 then Some (Inl SessionError, tr1)
             else (case body r of
                 None \<Rightarrow> Some (Inl JSONDecodeError, tr1)
               | Some js \<Rightarrow>
                  (case getitem js ''statusCode'' of
                     Inl e \<Rightarrow> Some (Inl e, tr1)
                   | Inr coflow_status \<Rightarrow>
                       if status_eq Pending coflow_status
                         then poll_status srv self loc (time_sleep 1 tr1)
                       else if status_eq Running coflow_status
                         then Some (Inr (), tr1)
                       else if status_eq Failed coflow_status
                         then Some (Inl CoFlowError, tr1)
                       else Some (Inl CoFlowError, tr1)))))"

declare poll_status.simps [code]

text \<open>The part of \<open>open_steady_state\<close> after its polling loop.\<close>

definition init_steady_state ::
  "server \<Rightarrow> CoFlow \<Rightarrow> string \<Rightarrow> string \<Rightarrow> trace \<Rightarrow> (error + SteadyState) \<times> trace" where
  "init_steady_state srv self p l tr =
    (let ss_url = url self @ str_replace ''/status'' [] l @ ''/current/api/v1/steady-state'';
         tr1 = time_sleep 3 tr
     in case create_init_request p of
          Inl ex \<Rightarrow> (Inl ex, tr1)
        | Inr init_request \<Rightarrow>
           (let session_url = ss_url @ ''/session''
            in case requests_post srv session_url init_request (CoFlow.api_key self) tr1 of
                 (Unreachable, tr2) \<Rightarrow> (Inl RequestException, tr2)
               | (Reply r, tr2) \<Rightarrow>
                   if status_code r \<noteq> 201
                   then (case close_state_state_session srv self session_url tr2 of
                           (Inl ex, tr3) \<Rightarrow> (Inl ex, tr3)
                         | (Inr u, tr3) \<Rightarrow> (Inl SessionError, tr3))
                   else (Inr \<lparr>steady_state_url = ss_url,
                              api_key = CoFlow.api_key self\<rparr>, tr2)))"

text \<open>
  \<open>open_steady_state\<close>, with its \<open>cores\<close> and \<open>mem\<close> arguments. The polling loop
  is left normally only after a GET of \<open>self.url + location\<close>, so \<open>location\<close> is a
  string in what follows the loop; the other case is there to make the function total.
\<close>

definition open_steady_state ::
  "server \<Rightarrow> CoFlow \<Rightarrow> string \<Rightarrow> int \<Rightarrow> int \<Rightarrow> trace
     \<Rightarrow> ((error + SteadyState) \<times> trace) option" where
  "open_steady_state srv self p cores mem tr =
    (let session_request =
           JObj [(''resources'', JObj [(''coreCount'', JInt cores), (''memoryMiB'', JInt mem)])]
     in case requests_post srv (url self @ ''/sessions'') session_request (CoFlow.api_key self) tr of
          (Unreachable, tr1) \<Rightarrow> Some (Inl RequestException, tr1)
        | (Reply r, tr1) \<Rightarrow>
            if status_code r = 401 \<or> status_code r = 405 then Some (Inl AuthError, tr1)
            else if status_code r \<noteq> 202 then Some (Inl SessionError, tr1)
            else (case poll_status srv self (location r) tr1 of
                None \<Rightarrow> None
              | Some (Inl e, tr2) \<Rightarrow> Some (Inl e, tr2)
              | Some (Inr u, tr2) \<Rightarrow>
                 (case location r of
                    None \<Rightarrow> Some (Inl TypeError, tr2)
                  | Some l \<Rightarrow> Some (init_steady_state srv self p l tr2))))"

subsection \<open>SteadyStateModel\<close>

text \<open>
  A property definition is the dict \<open>{"path": ..., "unit": ...}\<close>; \<open>input_defs\<close>
  and \<open>output_defs\<close> are dicts from alias to property definition, kept in insertion
  order as \<open>items()\<close> yields them.
\<close>

record prop_def =
  prop_path :: string
  prop_unit :: string

record SteadyStateModel =
  client :: CoFlow
  model_path :: string
  input_defs :: "(string \<times> prop_def) list"
  output_defs :: "(string \<times> prop_def) list"

text \<open>\<open>d[key]\<close> on a dict with string keys, for a key decoded from JSON.\<close>

fun dict_getitem :: "(string \<times> 'v) list \<Rightarrow> json \<Rightarrow> error + 'v" where
  "dict_getitem d (JStr k) = (case map_of d k of None \<Rightarrow> Inl KeyError | Some v \<Rightarrow> Inr v)"
| "dict_getitem d (JList xs) = Inl TypeError"
| "dict_getitem d (JObj kvs) = Inl TypeError"
| "dict_getitem d other = Inl KeyError"

text \<open>The first loop of \<open>run\<close>: one payload entry per declared input.\<close>

fun input_loop ::
  "(string \<times> prop_def) list \<Rightarrow> (string \<times> json) list \<Rightarrow> json list \<Rightarrow> error + json list" where
  "input_loop [] input_values input_prop_payload = Inr input_prop_payload"
| "input_loop ((alias, prop) # defs) input_values input_prop_payload =
     (case map_of input_values alias of
        None \<Rightarrow> Inl KeyError
      | Some input_value \<Rightarrow>
          input_loop defs input_values
            (input_prop_payload @
              [JObj [(''propertyPath'', JStr (prop_path prop)),
                     (''unit'', JStr (prop_unit prop)),
                     (''value'', input_value)]]))"

text \<open>The second loop: the query payload and the lookup from path to alias.\<close>

fun output_loop ::
  "(string \<times> prop_def) list \<Rightarrow> json list \<Rightarrow> (string \<times> string \<times> prop_def) list
     \<Rightarrow> json list \<times> (string \<times> string \<times> prop_def) list" where
  "output_loop [] output_prop_payload output_lookup = (output_prop_payload, output_lookup)"
| "output_loop ((key, prop) # defs) output_prop_payload output_lookup =
     output_loop defs
       (output_prop_payload @
         [JObj [(''propertyPath'', JStr (prop_path prop)), (''unit'', JStr (prop_unit prop))]])
       (AList.update (prop_path prop) (key, prop) output_lookup)"

text \<open>The loop over the properties of the query result.\<close>

fun translate_loop ::
  "(string \<times> string \<times> prop_def) list \<Rightarrow> json list \<Rightarrow> (string \<times> json) list
     \<Rightarrow> error + (string \<times> json) list" where
  "translate_loop output_lookup [] output = Inr output"
| "translate_loop output_lookup (output_value # rest) output =
     (case getitem output_value ''propertyPath'' of
        Inl e \<Rightarrow> Inl e
      | Inr p \<Rightarrow>
         (case dict_getitem output_lookup p of
            Inl e \<Rightarrow> Inl e
          | Inr (alias, prop) \<Rightarrow>
             (case getitem output_value ''value'' of
                Inl e \<Rightarrow> Inl e
              | Inr v \<Rightarrow> translate_loop output_lookup rest (AList.update alias v output))))"

definition translate ::
  "(string \<times> string \<times> prop_def) list \<Rightarrow> json \<Rightarrow> error + (string \<times> json) list" where
  "translate output_lookup model_output =
     (case getitem model_output ''properties'' of
        Inl e \<Rightarrow> Inl e
      | Inr props \<Rightarrow>
         (case py_iter props of
            Inl e \<Rightarrow> Inl e
          | Inr items \<Rightarrow> translate_loop output_lookup items []))"

text \<open>The body of the \<open>try\<close> statement once \<open>model\<close> is bound.\<close>

definition run_try ::
  "server \<Rightarrow> SteadyState \<Rightarrow> json list \<Rightarrow> json list \<Rightarrow> (string \<times> string \<times> prop_def) list
     \<Rightarrow> trace \<Rightarrow> ((error + (string \<times> json) list) \<times> trace) option" where
  "run_try srv model input_prop_payload output_prop_payload output_lookup tr =
     (case SteadyState_run srv model (JObj [(''properties'', JList input_prop_payload)]) tr of
        None \<Rightarrow> None
      | Some (Inl e, tr1) \<Rightarrow> Some (Inl e, tr1)
      | Some (Inr u, tr1) \<Rightarrow>
         (case query srv model (JObj [(''properties'', JList output_prop_payload)]) tr1 of
            (Inl e, tr2) \<Rightarrow> Some (Inl e, tr2)
          | (Inr model_output, tr2) \<Rightarrow> Some (translate output_lookup model_output, tr2)))"

text \<open>
  \<open>SteadyStateModel.run\<close>. The \<open>finally\<close> clause runs on every exit of the
  \<open>try\<close> statement; an exception raised in it replaces the pending result. When
  \<open>open_steady_state\<close> has raised, \<open>model\<close> is unbound and reading it raises
  UnboundLocalError. \<open>open_steady_state\<close> is called with its default \<open>cores\<close>
  and \<open>mem\<close>.
\<close>

definition SteadyStateModel_run ::
  "server \<Rightarrow> SteadyStateModel \<Rightarrow> (string \<times> json) list \<Rightarrow> trace
     \<Rightarrow> ((error + (string \<times> json) list) \<times> trace) option" where
  "SteadyStateModel_run srv self input_values tr =
     (case input_loop (input_defs self) input_values [] of
        Inl e \<Rightarrow> Some (Inl e, tr)
      | Inr input_prop_payload \<Rightarrow>
         (case output_loop (output_defs self) [] [] of
            (output_prop_payload, output_lookup) \<Rightarrow>
              (case open_steady_state srv (client self) (model_path self) 1 1024 tr of
                 None \<Rightarrow> None
               | Some (Inl e, tr1) \<Rightarrow> Some (Inl UnboundLocalError, tr1)
               | Some (Inr model, tr1) \<Rightarrow>
                  (case run_try srv model input_prop_payload output_prop_payload output_lookup tr1 of
                     None \<Rightarrow> None
                   | Some (outcome, tr2) \<Rightarrow>
                      (case close_steady_state srv (client self) model tr2 of
                         (Inl e, tr3) \<Rightarrow> Some (Inl e, tr3)
                       | (Inr u, tr3) \<Rightarrow> Some (outcome, tr3))))))"

section \<open>Vocabulary of the properties\<close>

subsection \<open>Reading the trace and the server\<close>

text \<open>
  The status code that one iteration of the session polling loop reads from a reply:
  defined when the reply is 200 OK with a JSON object that has a \<open>statusCode\<close>.
\<close>

definition polled_status :: "reply \<Rightarrow> json option" where
  "polled_status rp =
     (case rp of
        Unreachable \<Rightarrow> None
      | Reply r \<Rightarrow>
          if status_code r \<noteq> 200 then None
          else (case body r of
                  None \<Rightarrow> None
                | Some js \<Rightarrow> (case getitem js ''statusCode'' of Inl e \<Rightarrow> None | Inr v \<Rightarrow> Some v)))"

text \<open>
  The run status that one iteration of the loop of \<open>SteadyState.run\<close> reads from a
  reply: defined when the reply is 200 OK with a JSON object that has a \<open>status\<close> and a
  \<open>message\<close>.
\<close>

definition polled_run_status :: "reply \<Rightarrow> json option" where
  "polled_run_status rp =
     (case rp of
        Unreachable \<Rightarrow> None
      | Reply r \<Rightarrow>
          if status_code r \<noteq> 200 then None
          else (case body r of
                  None \<Rightarrow> None
                | Some status \<Rightarrow>
                   (case getitem status ''status'' of
                      Inl e \<Rightarrow> None
                    | Inr s \<Rightarrow>
                       (case getitem status ''message'' of Inl e \<Rightarrow> None | Inr m \<Rightarrow> Some s))))"

definition terminal :: "json \<Rightarrow> bool" where
  "terminal s = (s = JStr ''Succeeded'' \<or> s = JStr ''Failed'')"

text \<open>
  The requests of the client as events: the POST that \<open>open_steady_state\<close> starts with,
  the GET of one iteration of its polling loop, the POST and the GET of
  \<open>SteadyState.run\<close>, and the DELETE of \<open>close_steady_state\<close>.
\<close>

definition create_call :: "CoFlow \<Rightarrow> int \<Rightarrow> int \<Rightarrow> event" where
  "create_call self cores mem =
     Request POST (url self @ ''/sessions'') (CoFlow.api_key self)
       (Some (JObj [(''resources'', JObj [(''coreCount'', JInt cores), (''memoryMiB'', JInt mem)])]))"

definition status_poll :: "CoFlow \<Rightarrow> string \<Rightarrow> event" where
  "status_poll self l = Request GET (url self @ l) (CoFlow.api_key self) None"

definition run_post :: "SteadyState \<Rightarrow> json \<Rightarrow> event" where
  "run_post self vals =
     Request POST (steady_state_url self @ ''/run'') (SteadyState.api_key self) (Some vals)"

definition run_get :: "SteadyState \<Rightarrow> event" where
  "run_get self = Request GET (steady_state_url self @ ''/run'') (SteadyState.api_key self) None"

definition close_call :: "CoFlow \<Rightarrow> SteadyState \<Rightarrow> event" where
  "close_call self ss =
     Request DELETE (steady_state_url ss @ ''/session'') (CoFlow.api_key self) None"

fun is_delete :: "event \<Rightarrow> bool" where
  "is_delete (Request m u k b) = (m = DELETE)"
| "is_delete (Sleep n) = False"

text \<open>The init request that carries the given repository, project, study and case names.\<close>

definition init_request_for :: "string \<Rightarrow> string \<Rightarrow> string \<Rightarrow> string \<Rightarrow> json" where
  "init_request_for repo project study target_case =
     JObj [(''initializationInfo'', JObj
              [(''repositoryName'', JStr repo),
               (''projectName'', JStr project),
               (''studyName'', JStr study)]),
           (''editableInfo'', JObj
              [(''systemOfUnits'', JStr ''SI''),
               (''caseName'', JStr target_case)])]"


subsection \<open>Scripted servers\<close>

text \<open>A server that answers from a finite script and is unreachable afterwards.\<close>

definition script :: "reply list \<Rightarrow> server" where
  "script rs n = (if n < length rs then rs ! n else Unreachable)"

definition status_reply :: "int \<Rightarrow> reply" where
  "status_reply c = Reply \<lparr>status_code = c, location = None, body = None\<rparr>"

definition json_reply :: "int \<Rightarrow> json \<Rightarrow> reply" where
  "json_reply c js = Reply \<lparr>status_code = c, location = None, body = Some js\<rparr>"

definition accepted_at :: "string \<Rightarrow> reply" where
  "accepted_at l = Reply \<lparr>status_code = 202, location = Some l, body = None\<rparr>"

definition session_status :: "int \<Rightarrow> reply" where
  "session_status c = json_reply 200 (JObj [(''statusCode'', JInt c)])"

definition run_status :: "string \<Rightarrow> reply" where
  "run_status s = json_reply 200 (JObj [(''status'', JStr s), (''message'', JStr [])])"

subsection \<open>A tenant, a model and six services\<close>

definition tenant :: CoFlow where
  "tenant = \<lparr>url = ''https://tenant/api'', api_key = ''token''\<rparr>"

definition engine :: SteadyState where
  "engine = \<lparr>steady_state_url = ''https://tenant/api/sessions/42/current/api/v1/steady-state'',
              api_key = ''token''\<rparr>"

definition bhp_model :: SteadyStateModel where
  "bhp_model =
     \<lparr>client = tenant,
      model_path = ''//repo/projA/studyB/caseC'',
      input_defs = [(''gas_rate'', \<lparr>prop_path = ''Networks/Gas'', prop_unit = ''MMSCF/day''\<rparr>)],
      output_defs = [(''bhp'', \<lparr>prop_path = ''Networks/bhp'', prop_unit = ''psi''\<rparr>)]\<rparr>"

definition bhp_inputs :: "(string \<times> json) list" where
  "bhp_inputs = [(''gas_rate'', JFloat 2.59)]"

text \<open>
  The trace that opening a session for \<open>bhp_model\<close> leaves on the services below: the
  create-session POST, a poll that reads Pending, a poll that reads Running, the settle
  delay and the init POST.
\<close>

definition opened_trace :: trace where
  "opened_trace =
     [create_call tenant 1 1024,
      status_poll tenant ''/sessions/42/status'', Sleep 1,
      status_poll tenant ''/sessions/42/status'', Sleep 3,
      Request POST (steady_state_url engine @ ''/session'') ''token''
        (Some (init_request_for ''repo'' ''projA'' ''studyB'' ''caseC''))]"

text \<open>
  Each service provisions the session (202 with a Location, then Pending, then Running).
  The first five accept the init request (201): \<open>happy_server\<close> then runs the model,
  answers the query with the declared property and accepts the close;
  \<open>run_rejecting_server\<close> rejects the run request; \<open>query_rejecting_server\<close> rejects
  the query; \<open>silent_server\<close> answers the query with no property;
  \<open>surprising_server\<close> answers it with the declared property and one that was not
  declared. \<open>init_rejecting_server\<close> rejects the init request (500) and answers the
  cleanup DELETE with 200 OK.
\<close>

definition bhp_result :: json where
  "bhp_result = JObj [(''properties'', JList
      [JObj [(''propertyPath'', JStr ''Networks/bhp''), (''unit'', JStr ''psi''),
             (''value'', JFloat 1234.56)]])]"


definition happy_server :: server where
  "happy_server = script
     [accepted_at ''/sessions/42/status'', session_status 100, session_status 200,
      status_reply 201,
      status_reply 202, run_status ''Running'', run_status ''Succeeded'',
      json_reply 200 bhp_result,
      status_reply 202]"

definition run_rejecting_server :: server where
  "run_rejecting_server = script
     [accepted_at ''/sessions/42/status'', session_status 100, session_status 200,
      status_reply 201,
      status_reply 500,
      status_reply 202]"

definition query_rejecting_server :: server where
  "query_rejecting_server = script
     [accepted_at ''/sessions/42/status'', session_status 100, session_status 200,
      status_reply 201,
      status_reply 202, run_status ''Succeeded'',
      status_reply 500,
      status_reply 202]"



definition init_rejecting_server :: server where
  "init_rejecting_server = script
     [accepted_at ''/sessions/42/status'', session_status 100, session_status 200,
      status_reply 500,
      status_reply 200]"



section \<open>Properties\<close>

subsection \<open>Counting requests\<close>

lemma sent_request [simp]: "sent (tr @ [Request m u k b]) = Suc (sent tr)"
  by (simp add: sent_def)

lemma sent_sleep [simp]: "sent (tr @ [Sleep n]) = sent tr"
  by (simp add: sent_def)

lemma sent_append: "sent (tr @ tr') = sent tr + sent tr'"
  by (simp add: sent_def)

lemma sent_status_cycles:
  "sent (tr @ concat (replicate k [status_poll self l, Sleep 1])) = sent tr + k"
  by (induction k) (simp_all add: sent_append, simp_all add: sent_def status_poll_def)

lemma sent_run_cycles:
  "sent (tr @ concat (replicate k [run_get self, Sleep 1])) = sent tr + k"
  by (induction k) (simp_all add: sent_append, simp_all add: sent_def run_get_def)

subsection \<open>The session polling loop\<close>

lemma poll_status_step:
  assumes "polled_status (srv (sent tr)) = Some v"
  shows "poll_status srv self (Some l) tr =
    (if status_eq Pending v
       then poll_status srv self (Some l) (tr @ [status_poll self l, Sleep 1])
     else if status_eq Running v then Some (Inr (), tr @ [status_poll self l])
     else Some (Inl CoFlowError, tr @ [status_poll self l]))"
  using assms
  by (subst poll_status.simps)
     (auto simp: polled_status_def requests_get_def time_sleep_def status_poll_def
           split: reply.splits option.splits sum.splits if_splits)

lemma poll_status_pending_prefix:
  assumes "\<forall>i<k. polled_status (srv (sent tr + i)) = Some (JInt 100)"
  shows "poll_status srv self (Some l) tr =
         poll_status srv self (Some l) (tr @ concat (replicate k [status_poll self l, Sleep 1]))"
  using assms
proof (induction k arbitrary: tr)
  case 0
  then show ?case by simp
next
  case (Suc k)
  from Suc.prems have first: "polled_status (srv (sent tr)) = Some (JInt 100)"
    by (metis add.right_neutral zero_less_Suc)
  have rest: "\<forall>i<k. polled_status (srv (sent (tr @ [status_poll self l, Sleep 1]) + i))
                = Some (JInt 100)"
  proof (intro allI impI)
    fix i assume "i < k"
    then have "Suc i < Suc k" by simp
    with Suc.prems have "polled_status (srv (sent tr + Suc i)) = Some (JInt 100)" by blast
    then show "polled_status (srv (sent (tr @ [status_poll self l, Sleep 1]) + i))
                 = Some (JInt 100)"
      by (simp add: sent_append sent_def status_poll_def)
  qed
  have "poll_status srv self (Some l) tr
          = poll_status srv self (Some l) (tr @ [status_poll self l, Sleep 1])"
    using first by (simp add: poll_status_step [where srv = srv])
  also have "\<dots> = poll_status srv self (Some l)
        ((tr @ [status_poll self l, Sleep 1]) @ concat (replicate k [status_poll self l, Sleep 1]))"
    by (rule Suc.IH [OF rest])
  finally show ?case by simp
qed

text \<open>
  C5. The session polling loop of \<open>open_steady_state\<close>, on a server whose next
  \<open>k\<close> polls read Pending (100) and whose poll after those reads a status code \<open>v\<close>
  that is not Pending: the loop sends \<open>k + 1\<close> GETs with a sleep of one second after
  each of the first \<open>k\<close>, and nothing after the poll that read \<open>v\<close>. It leaves the
  loop normally when \<open>v\<close> is Running (200) and raises CoFlowError for every other
  \<open>v\<close>, Failed (300) and unrecognised codes alike. For Pending, Pending, Running that is
  exactly two sleep cycles; for a sequence ending in Failed there is no poll after it.
\<close>

theorem poll_status_sequences:
  assumes pending: "\<forall>i<k. polled_status (srv (sent tr + i)) = Some (JInt 100)"
      and final: "polled_status (srv (sent tr + k)) = Some v"
      and not_pending: "\<not> status_eq Pending v"
  shows "poll_status srv self (Some l) tr =
           Some (if status_eq Running v then Inr () else Inl CoFlowError,
                 tr @ concat (replicate k [status_poll self l, Sleep 1]) @ [status_poll self l])"
proof -
  let ?tr = "tr @ concat (replicate k [status_poll self l, Sleep 1])"
  from final have "polled_status (srv (sent ?tr)) = Some v"
    by (simp only: sent_status_cycles)
  from poll_status_step [where srv = srv and tr = ?tr, OF this] not_pending
  have "poll_status srv self (Some l) ?tr =
          Some (if status_eq Running v then Inr () else Inl CoFlowError, ?tr @ [status_poll self l])"
    by simp
  with poll_status_pending_prefix [OF pending] show ?thesis by simp
qed

theorem poll_status_sequences_witness:
  "poll_status (script [session_status 100, session_status 100, session_status 200])
       tenant (Some ''/sessions/42/status'') []
     = Some (Inr (),
         [status_poll tenant ''/sessions/42/status'', Sleep 1,
          status_poll tenant ''/sessions/42/status'', Sleep 1,
          status_poll tenant ''/sessions/42/status''])
   \<and> poll_status (script [session_status 100, session_status 300, session_status 200])
       tenant (Some ''/sessions/42/status'') []
     = Some (Inl CoFlowError,
         [status_poll tenant ''/sessions/42/status'', Sleep 1,
          status_poll tenant ''/sessions/42/status''])
   \<and> poll_status (script [session_status 0]) tenant (Some ''/sessions/42/status'') []
     = Some (Inl CoFlowError, [status_poll tenant ''/sessions/42/status''])"
proof (intro conjI)
  let ?s1 = "script [session_status 100, session_status 100, session_status 200]"
  have "\<forall>i<2. polled_status (?s1 (sent [] + i)) = Some (JInt 100)"
    by (simp add: less_2_cases_iff sent_def script_def session_status_def json_reply_def
          polled_status_def)
  moreover have "polled_status (?s1 (sent [] + 2)) = Some (JInt 200)"
    by (simp add: sent_def script_def session_status_def json_reply_def polled_status_def)
  moreover have "\<not> status_eq Pending (JInt 200)" by simp
  ultimately show "poll_status ?s1 tenant (Some ''/sessions/42/status'') []
     = Some (Inr (),
         [status_poll tenant ''/sessions/42/status'', Sleep 1,
          status_poll tenant ''/sessions/42/status'', Sleep 1,
          status_poll tenant ''/sessions/42/status''])"
    using poll_status_sequences [of 2 ?s1 "[]" "JInt 200" tenant "''/sessions/42/status''"]
    by (simp add: numeral_2_eq_2)
next
  let ?s2 = "script [session_status 100, session_status 300, session_status 200]"
  have "\<forall>i<1. polled_status (?s2 (sent [] + i)) = Some (JInt 100)"
    by (simp add: sent_def script_def session_status_def json_reply_def polled_status_def)
  moreover have "polled_status (?s2 (sent [] + 1)) = Some (JInt 300)"
    by (simp add: sent_def script_def session_status_def json_reply_def polled_status_def)
  moreover have "\<not> status_eq Pending (JInt 300)" by simp
  ultimately show "poll_status ?s2 tenant (Some ''/sessions/42/status'') []
     = Some (Inl CoFlowError,
         [status_poll tenant ''/sessions/42/status'', Sleep 1,
          status_poll tenant ''/sessions/42/status''])"
    using poll_status_sequences [of 1 ?s2 "[]" "JInt 300" tenant "''/sessions/42/status''"]
    by simp
next
  let ?s3 = "script [session_status 0]"
  have "\<forall>i<0. polled_status (?s3 (sent [] + i)) = Some (JInt 100)"
    by simp
  moreover have "polled_status (?s3 (sent [] + 0)) = Some (JInt 0)"
    by (simp add: sent_def script_def session_status_def json_reply_def polled_status_def)
  moreover have "\<not> status_eq Pending (JInt 0)" by simp
  ultimately show "poll_status ?s3 tenant (Some ''/sessions/42/status'') []
     = Some (Inl CoFlowError, [status_poll tenant ''/sessions/42/status''])"
    using poll_status_sequences [of 0 ?s3 "[]" "JInt 0" tenant "''/sessions/42/status''"]
    by simp
qed

subsection \<open>The polling loop of SteadyState.run\<close>

lemma run_poll_step:
  assumes "polled_run_status (srv (sent tr)) = Some s"
  shows "run_poll srv self tr =
    (if terminal s then Some (Inr (), tr @ [run_get self])
     else run_poll srv self (tr @ [run_get self, Sleep 1]))"
  using assms
  by (subst run_poll.simps)
     (auto simp: polled_run_status_def requests_get_def time_sleep_def run_get_def terminal_def
           split: reply.splits option.splits sum.splits if_splits)

lemma run_poll_waiting_prefix:
  assumes "\<forall>i<k. \<exists>s. polled_run_status (srv (sent tr + i)) = Some s \<and> \<not> terminal s"
  shows "run_poll srv self tr =
         run_poll srv self (tr @ concat (replicate k [run_get self, Sleep 1]))"
  using assms
proof (induction k arbitrary: tr)
  case 0
  then show ?case by simp
next
  case (Suc k)
  from Suc.prems obtain s where first: "polled_run_status (srv (sent tr)) = Some s" "\<not> terminal s"
    by (metis add.right_neutral zero_less_Suc)
  have rest: "\<forall>i<k. \<exists>s. polled_run_status (srv (sent (tr @ [run_get self, Sleep 1]) + i)) = Some s
                  \<and> \<not> terminal s"
  proof (intro allI impI)
    fix i assume "i < k"
    then have "Suc i < Suc k" by simp
    with Suc.prems have "\<exists>s. polled_run_status (srv (sent tr + Suc i)) = Some s \<and> \<not> terminal s"
      by blast
    then show "\<exists>s. polled_run_status (srv (sent (tr @ [run_get self, Sleep 1]) + i)) = Some s
                  \<and> \<not> terminal s"
      by (simp add: sent_append sent_def run_get_def)
  qed
  have "run_poll srv self tr = run_poll srv self (tr @ [run_get self, Sleep 1])"
    using first by (simp add: run_poll_step [where srv = srv])
  also have "\<dots> = run_poll srv self
        ((tr @ [run_get self, Sleep 1]) @ concat (replicate k [run_get self, Sleep 1]))"
    by (rule Suc.IH [OF rest])
  finally show ?case by simp
qed

lemma run_poll_terminates:
  assumes waiting: "\<forall>i<k. \<exists>s. polled_run_status (srv (sent tr + i)) = Some s \<and> \<not> terminal s"
      and final: "polled_run_status (srv (sent tr + k)) = Some s"
      and "terminal s"
  shows "run_poll srv self tr =
           Some (Inr (), tr @ concat (replicate k [run_get self, Sleep 1]) @ [run_get self])"
proof -
  let ?tr = "tr @ concat (replicate k [run_get self, Sleep 1])"
  from final have "polled_run_status (srv (sent ?tr)) = Some s"
    by (simp only: sent_run_cycles)
  from run_poll_step [where srv = srv and tr = ?tr, OF this] assms(3)
  have "run_poll srv self ?tr = Some (Inr (), ?tr @ [run_get self])"
    by simp
  with run_poll_waiting_prefix [OF waiting] show ?thesis by simp
qed

lemma run_poll_returns_after_terminal:
  assumes "run_poll srv self tr = Some y"
  shows "\<forall>u tr'. y = (Inr u, tr') \<longrightarrow>
           (\<exists>s. polled_run_status (srv (sent tr' - 1)) = Some s \<and> terminal s)"
  using assms
proof (induction srv self tr y rule: run_poll.raw_induct [rotated 1, consumes 1, case_names step])
  case (step run_poll' srv self tr y)
  have "(\<exists>e tr1. y = (Inl e, tr1))
      \<or> (\<exists>s. polled_run_status (srv (sent tr)) = Some s \<and> terminal s
              \<and> y = (Inr (), tr @ [run_get self]))
      \<or> run_poll' srv self (tr @ [run_get self, Sleep 1]) = Some y"
    using step(2)
    by (auto simp: polled_run_status_def requests_get_def time_sleep_def terminal_def run_get_def
             split: reply.splits option.splits sum.splits if_splits)
  then show ?case
  proof (elim disjE exE conjE)
    fix e tr1 assume "y = (Inl e, tr1)"
    then show ?thesis by simp
  next
    fix s assume "polled_run_status (srv (sent tr)) = Some s" "terminal s"
      "y = (Inr (), tr @ [run_get self])"
    then show ?thesis by (auto simp: run_get_def)
  next
    assume "run_poll' srv self (tr @ [run_get self, Sleep 1]) = Some y"
    then show ?thesis by (rule step(1))
  qed
qed

lemma run_poll_never_returns:
  assumes "run_poll srv self tr = Some y"
  shows "\<not> (\<forall>i. \<exists>s. polled_run_status (srv (sent tr + i)) = Some s \<and> \<not> terminal s)"
  using assms
proof (induction srv self tr y rule: run_poll.raw_induct [rotated 1, consumes 1, case_names step])
  case (step run_poll' srv self tr y)
  show ?case
  proof
    assume all: "\<forall>i. \<exists>s. polled_run_status (srv (sent tr + i)) = Some s \<and> \<not> terminal s"
    then obtain s where s: "polled_run_status (srv (sent tr)) = Some s" "\<not> terminal s"
      by (metis add.right_neutral)
    with step(2) have "run_poll' srv self (tr @ [run_get self, Sleep 1]) = Some y"
      by (auto simp: polled_run_status_def requests_get_def time_sleep_def terminal_def run_get_def
             split: reply.splits option.splits sum.splits if_splits)
    from step(1) [OF this] obtain i where
      "\<not> (\<exists>s. polled_run_status (srv (sent (tr @ [run_get self, Sleep 1]) + i)) = Some s
              \<and> \<not> terminal s)"
      by blast
    then have "\<not> (\<exists>s. polled_run_status (srv (sent tr + Suc i)) = Some s \<and> \<not> terminal s)"
      by (simp add: sent_append sent_def run_get_def)
    with all show False by blast
  qed
qed

text \<open>
  C8. \<open>SteadyState.run\<close> after its POST was accepted (202), on a server whose polls
  are answered 200 OK with a status and a message. If the first \<open>k\<close> polls read a
  status other than "Succeeded" and "Failed" and the next one reads "Succeeded" or
  "Failed", the call returns after exactly \<open>k + 1\<close> GETs with a sleep of one second
  after each of the first \<open>k\<close>; the value returned is \<open>None\<close> (here \<open>Inr ()\<close>)
  for both terminal statuses. If every poll reads a non-terminal status the call never
  returns. Conversely, whatever the server answers, the call returns normally only right
  after a poll that read "Succeeded" or "Failed".
\<close>

theorem SteadyState_run_polling:
  assumes "srv (sent tr) = Reply r" and "status_code r = 202"
  shows "(\<forall>k s. (\<forall>i<k. \<exists>s'. polled_run_status (srv (sent tr + 1 + i)) = Some s' \<and> \<not> terminal s')
              \<and> polled_run_status (srv (sent tr + 1 + k)) = Some s \<and> terminal s
            \<longrightarrow> SteadyState_run srv self vals tr =
                  Some (Inr (), tr @ [run_post self vals]
                                  @ concat (replicate k [run_get self, Sleep 1]) @ [run_get self]))
       \<and> ((\<forall>i. \<exists>s'. polled_run_status (srv (sent tr + 1 + i)) = Some s' \<and> \<not> terminal s')
            \<longrightarrow> SteadyState_run srv self vals tr = None)
       \<and> (\<forall>u tr'. SteadyState_run srv self vals tr = Some (Inr u, tr')
            \<longrightarrow> (\<exists>s. polled_run_status (srv (sent tr' - 1)) = Some s \<and> terminal s))"
proof -
  let ?tr1 = "tr @ [run_post self vals]"
  have run: "SteadyState_run srv self vals tr = run_poll srv self ?tr1"
    using assms by (simp add: SteadyState_run_def requests_post_def run_post_def)
  have sent1: "sent ?tr1 = sent tr + 1"
    by (simp add: run_post_def)
  have part1: "SteadyState_run srv self vals tr =
                  Some (Inr (), tr @ [run_post self vals]
                                  @ concat (replicate k [run_get self, Sleep 1]) @ [run_get self])"
    if "\<forall>i<k. \<exists>s'. polled_run_status (srv (sent tr + 1 + i)) = Some s' \<and> \<not> terminal s'"
      and "polled_run_status (srv (sent tr + 1 + k)) = Some s" and "terminal s" for k s
    using run_poll_terminates [of k srv ?tr1 s self] that run sent1 by simp
  have part2: "SteadyState_run srv self vals tr = None"
    if "\<forall>i. \<exists>s'. polled_run_status (srv (sent tr + 1 + i)) = Some s' \<and> \<not> terminal s'"
  proof (cases "run_poll srv self ?tr1")
    case None
    with run show ?thesis by simp
  next
    case (Some y)
    from run_poll_never_returns [OF Some] that sent1 show ?thesis by (simp, blast)
  qed
  have part3: "\<exists>s. polled_run_status (srv (sent tr' - 1)) = Some s \<and> terminal s"
    if "SteadyState_run srv self vals tr = Some (Inr u, tr')" for u tr'
    using run_poll_returns_after_terminal [of srv self ?tr1 "(Inr u, tr')"] that run by simp
  from part1 part2 part3 show ?thesis by blast
qed
theorem SteadyState_run_polling_witness:
  "SteadyState_run (script [status_reply 202, run_status ''Running'', run_status ''Succeeded''])
       engine (JObj [(''properties'', JList [])]) []
     = Some (Inr (), [run_post engine (JObj [(''properties'', JList [])]),
                      run_get engine, Sleep 1, run_get engine])
   \<and> SteadyState_run (script [status_reply 202, run_status ''Running'', run_status ''Failed''])
       engine (JObj [(''properties'', JList [])]) []
     = Some (Inr (), [run_post engine (JObj [(''properties'', JList [])]),
                      run_get engine, Sleep 1, run_get engine])
   \<and> SteadyState_run (\<lambda>n. if n = 0 then status_reply 202 else run_status ''Running'')
       engine (JObj [(''properties'', JList [])]) [] = None"
proof (intro conjI)
  let ?r = "\<lparr>status_code = 202, location = None, body = None\<rparr>"
  let ?vals = "JObj [(''properties'', JList [])]"
  let ?s1 = "script [status_reply 202, run_status ''Running'', run_status ''Succeeded'']"
  let ?s2 = "script [status_reply 202, run_status ''Running'', run_status ''Failed'']"
  let ?s3 = "\<lambda>n::nat. if n = 0 then status_reply 202 else run_status ''Running''"
  show "SteadyState_run ?s1 engine ?vals []
     = Some (Inr (), [run_post engine ?vals, run_get engine, Sleep 1, run_get engine])"
    using SteadyState_run_polling [of ?s1 "[]" ?r engine ?vals, THEN conjunct1, rule_format,
        of 1 "JStr ''Succeeded''"]
    by (simp add: sent_def script_def status_reply_def run_status_def json_reply_def
          polled_run_status_def terminal_def)
  show "SteadyState_run ?s2 engine ?vals []
     = Some (Inr (), [run_post engine ?vals, run_get engine, Sleep 1, run_get engine])"
    using SteadyState_run_polling [of ?s2 "[]" ?r engine ?vals, THEN conjunct1, rule_format,
        of 1 "JStr ''Failed''"]
    by (simp add: sent_def script_def status_reply_def run_status_def json_reply_def
          polled_run_status_def terminal_def)
  show "SteadyState_run ?s3 engine ?vals [] = None"
    using SteadyState_run_polling [of ?s3 "[]" ?r engine ?vals, THEN conjunct2, THEN conjunct1]
    by (simp add: sent_def status_reply_def run_status_def json_reply_def
          polled_run_status_def terminal_def)
qed

subsection \<open>What the loops add to the trace\<close>

lemma poll_status_extends:
  assumes "poll_status srv self loc tr = Some y"
  shows "\<exists>rest. snd y = tr @ rest \<and> (\<forall>ev \<in> set rest. \<not> is_delete ev)"
  using assms
proof (induction srv self loc tr y rule: poll_status.raw_induct [rotated 1, consumes 1, case_names step])
  case (step poll_status' srv self loc tr y)
  show ?case
  proof (cases loc)
    case None
    with step(2) show ?thesis by auto
  next
    case (Some l)
    have "snd y = tr @ [status_poll self l]
        \<or> poll_status' srv self loc (tr @ [status_poll self l, Sleep 1]) = Some y"
      using step(2) Some
      by (auto simp: requests_get_def time_sleep_def status_poll_def
               split: reply.splits option.splits sum.splits if_splits)
    then show ?thesis
    proof
      assume "snd y = tr @ [status_poll self l]"
      then show ?thesis by (simp add: status_poll_def)
    next
      assume "poll_status' srv self loc (tr @ [status_poll self l, Sleep 1]) = Some y"
      from step(1) [OF this] obtain rest where
        "snd y = (tr @ [status_poll self l, Sleep 1]) @ rest" "\<forall>ev \<in> set rest. \<not> is_delete ev"
        by blast
      then have "snd y = tr @ ([status_poll self l, Sleep 1] @ rest)
          \<and> (\<forall>ev \<in> set ([status_poll self l, Sleep 1] @ rest). \<not> is_delete ev)"
        by (simp add: status_poll_def)
      then show ?thesis by blast
    qed
  qed
qed

lemma poll_status_first:
  assumes "poll_status srv self (Some l) tr = Some y"
  shows "\<exists>rest. snd y = tr @ status_poll self l # rest"
proof -
  have "snd y = tr @ [status_poll self l]
      \<or> poll_status srv self (Some l) (tr @ [status_poll self l, Sleep 1]) = Some y"
    using assms
    by (subst (asm) poll_status.simps)
       (auto simp: requests_get_def time_sleep_def status_poll_def
             split: reply.splits option.splits sum.splits if_splits)
  then show ?thesis
  proof
    assume "snd y = tr @ [status_poll self l]"
    then show ?thesis by simp
  next
    assume "poll_status srv self (Some l) (tr @ [status_poll self l, Sleep 1]) = Some y"
    from poll_status_extends [OF this] show ?thesis by auto
  qed
qed

lemma run_poll_extends:
  assumes "run_poll srv self tr = Some y"
  shows "\<exists>rest. snd y = tr @ rest \<and> (\<forall>ev \<in> set rest. \<not> is_delete ev)"
  using assms
proof (induction srv self tr y rule: run_poll.raw_induct [rotated 1, consumes 1, case_names step])
  case (step run_poll' srv self tr y)
  have "snd y = tr @ [run_get self]
      \<or> run_poll' srv self (tr @ [run_get self, Sleep 1]) = Some y"
    using step(2)
    by (auto simp: requests_get_def time_sleep_def run_get_def
             split: reply.splits option.splits sum.splits if_splits)
  then show ?case
  proof
    assume "snd y = tr @ [run_get self]"
    then show ?thesis by (simp add: run_get_def)
  next
    assume "run_poll' srv self (tr @ [run_get self, Sleep 1]) = Some y"
    from step(1) [OF this] obtain rest where
      "snd y = (tr @ [run_get self, Sleep 1]) @ rest" "\<forall>ev \<in> set rest. \<not> is_delete ev"
      by blast
    then have "snd y = tr @ ([run_get self, Sleep 1] @ rest)
        \<and> (\<forall>ev \<in> set ([run_get self, Sleep 1] @ rest). \<not> is_delete ev)"
      by (simp add: run_get_def)
    then show ?thesis by blast
  qed
qed

lemma SteadyState_run_extends:
  assumes "SteadyState_run srv self vals tr = Some y"
  shows "\<exists>rest. snd y = tr @ rest \<and> (\<forall>ev \<in> set rest. \<not> is_delete ev)"
proof -
  have "snd y = tr @ [run_post self vals] \<or> run_poll srv self (tr @ [run_post self vals]) = Some y"
    using assms
    by (auto simp: SteadyState_run_def requests_post_def run_post_def
             split: reply.splits if_splits)
  then show ?thesis
  proof
    assume "snd y = tr @ [run_post self vals]"
    then show ?thesis by (simp add: run_post_def)
  next
    assume "run_poll srv self (tr @ [run_post self vals]) = Some y"
    from run_poll_extends [OF this] obtain rest where
      "snd y = (tr @ [run_post self vals]) @ rest" "\<forall>ev \<in> set rest. \<not> is_delete ev"
      by blast
    then have "snd y = tr @ ([run_post self vals] @ rest)
        \<and> (\<forall>ev \<in> set ([run_post self vals] @ rest). \<not> is_delete ev)"
      by (simp add: run_post_def)
    then show ?thesis by blast
  qed
qed

lemma query_extends:
  "\<exists>rest. snd (query srv self request tr) = tr @ rest \<and> (\<forall>ev \<in> set rest. \<not> is_delete ev)"
  by (auto simp: query_def requests_post_def split: reply.splits option.splits)

lemma init_steady_state_extends:
  "\<exists>rest. snd (init_steady_state srv self p l tr) = tr @ rest"
  by (auto simp: init_steady_state_def Let_def requests_post_def requests_delete_def time_sleep_def
        close_state_state_session_def split: sum.splits reply.splits prod.splits)

subsection \<open>The create-session response\<close>

text \<open>
  C4. \<open>open_steady_state\<close> on the response to its create-session POST. Status 401 or 405
  raises AuthError and any status other than 401, 405 and 202 raises SessionError, in both
  cases with no request after the POST. Status 202 with a \<open>Location\<close> header \<open>l\<close>
  proceeds to polling: the call fails to return exactly when the polling loop on
  \<open>url + l\<close> never ends, and in every run that returns or raises, the request after the
  POST is the GET of \<open>url + l\<close>.
\<close>

theorem open_steady_state_create_response:
  assumes "srv (sent tr) = Reply r"
  shows "(status_code r = 401 \<or> status_code r = 405 \<longrightarrow>
            open_steady_state srv self p cores mem tr
              = Some (Inl AuthError, tr @ [create_call self cores mem]))
       \<and> (status_code r \<noteq> 401 \<and> status_code r \<noteq> 405 \<and> status_code r \<noteq> 202 \<longrightarrow>
            open_steady_state srv self p cores mem tr
              = Some (Inl SessionError, tr @ [create_call self cores mem]))
       \<and> (status_code r = 202 \<longrightarrow> (\<forall>l. location r = Some l \<longrightarrow>
            ((open_steady_state srv self p cores mem tr = None)
               = (poll_status srv self (Some l) (tr @ [create_call self cores mem]) = None))
            \<and> (\<forall>y. open_steady_state srv self p cores mem tr = Some y \<longrightarrow>
                 (\<exists>rest. snd y = tr @ [create_call self cores mem, status_poll self l] @ rest))))"
proof (intro conjI impI allI)
  assume "status_code r = 401 \<or> status_code r = 405"
  with assms show "open_steady_state srv self p cores mem tr
                     = Some (Inl AuthError, tr @ [create_call self cores mem])"
    by (auto simp: open_steady_state_def requests_post_def create_call_def)
next
  assume "status_code r \<noteq> 401 \<and> status_code r \<noteq> 405 \<and> status_code r \<noteq> 202"
  with assms show "open_steady_state srv self p cores mem tr
                     = Some (Inl SessionError, tr @ [create_call self cores mem])"
    by (auto simp: open_steady_state_def requests_post_def create_call_def)
next
  fix l
  assume "status_code r = 202" and "location r = Some l"
  with assms show "(open_steady_state srv self p cores mem tr = None)
      = (poll_status srv self (Some l) (tr @ [create_call self cores mem]) = None)"
    by (auto simp: open_steady_state_def requests_post_def create_call_def
             split: option.splits sum.splits prod.splits)
next
  fix l y
  let ?tr1 = "tr @ [create_call self cores mem]"
  assume st: "status_code r = 202" and loc: "location r = Some l"
     and ret: "open_steady_state srv self p cores mem tr = Some y"
  from assms st loc ret obtain z where
    polled: "poll_status srv self (Some l) ?tr1 = Some z"
    and y: "snd y = snd z \<or> snd y = snd (init_steady_state srv self p l (snd z))"
    by (auto simp: open_steady_state_def requests_post_def create_call_def
             split: option.splits sum.splits prod.splits)
  from poll_status_first [OF polled] obtain rest where z: "snd z = ?tr1 @ status_poll self l # rest"
    by blast
  from init_steady_state_extends [of srv self p l "snd z"] obtain rest' where
    "snd (init_steady_state srv self p l (snd z)) = snd z @ rest'" by blast
  with y z have "snd y = tr @ [create_call self cores mem, status_poll self l] @ rest
      \<or> snd y = tr @ [create_call self cores mem, status_poll self l] @ (rest @ rest')"
    by auto
  then show "\<exists>rest. snd y = tr @ [create_call self cores mem, status_poll self l] @ rest"
    by blast
qed
theorem open_steady_state_create_response_witness:
  "open_steady_state (script [status_reply 401]) tenant ''//repo/projA/studyB/caseC'' 1 1024 []
     = Some (Inl AuthError, [create_call tenant 1 1024])
   \<and> open_steady_state (script [status_reply 405]) tenant ''//repo/projA/studyB/caseC'' 1 1024 []
     = Some (Inl AuthError, [create_call tenant 1 1024])
   \<and> open_steady_state (script [status_reply 500]) tenant ''//repo/projA/studyB/caseC'' 1 1024 []
     = Some (Inl SessionError, [create_call tenant 1 1024])
   \<and> (\<exists>y rest.
        open_steady_state (script [accepted_at ''/sessions/42/status'', session_status 300])
            tenant ''//repo/projA/studyB/caseC'' 1 1024 [] = Some y
        \<and> snd y = [create_call tenant 1 1024, status_poll tenant ''/sessions/42/status''] @ rest)"
proof (intro conjI)
  let ?p = "''//repo/projA/studyB/caseC''"
  show "open_steady_state (script [status_reply 401]) tenant ?p 1 1024 []
          = Some (Inl AuthError, [create_call tenant 1 1024])"
    using open_steady_state_create_response
      [of "script [status_reply 401]" "[]" "\<lparr>status_code = 401, location = None, body = None\<rparr>"
          tenant ?p 1 1024]
    by (simp add: sent_def script_def status_reply_def)
  show "open_steady_state (script [status_reply 405]) tenant ?p 1 1024 []
          = Some (Inl AuthError, [create_call tenant 1 1024])"
    using open_steady_state_create_response
      [of "script [status_reply 405]" "[]" "\<lparr>status_code = 405, location = None, body = None\<rparr>"
          tenant ?p 1 1024]
    by (simp add: sent_def script_def status_reply_def)
  show "open_steady_state (script [status_reply 500]) tenant ?p 1 1024 []
          = Some (Inl SessionError, [create_call tenant 1 1024])"
    using open_steady_state_create_response
      [of "script [status_reply 500]" "[]" "\<lparr>status_code = 500, location = None, body = None\<rparr>"
          tenant ?p 1 1024]
    by (simp add: sent_def script_def status_reply_def)
  let ?l = "''/sessions/42/status''"
  let ?srv = "script [accepted_at ?l, session_status 300]"
  let ?r = "\<lparr>status_code = 202, location = Some ?l, body = None\<rparr>"
  have first: "?srv (sent []) = Reply ?r"
    by (simp add: sent_def script_def accepted_at_def)
  have "polled_status (?srv (sent ([] @ [create_call tenant 1 1024]))) = Some (JInt 300)"
    by (simp add: sent_def script_def create_call_def session_status_def json_reply_def
          polled_status_def)
  from poll_status_step [where srv = ?srv, OF this]
  have polled: "poll_status ?srv tenant (Some ?l) ([] @ [create_call tenant 1 1024]) \<noteq> None"
    by simp
  note facts = open_steady_state_create_response [of ?srv "[]" ?r tenant ?p 1 1024, OF first]
  from facts polled have "open_steady_state ?srv tenant ?p 1 1024 [] \<noteq> None"
    by simp
  then obtain y where y: "open_steady_state ?srv tenant ?p 1 1024 [] = Some y"
    by blast
  with facts have "\<exists>rest. snd y = [] @ [create_call tenant 1 1024, status_poll tenant ?l] @ rest"
    by (cases y) simp
  with y show "\<exists>y rest. open_steady_state ?srv tenant ?p 1 1024 [] = Some y
        \<and> snd y = [create_call tenant 1 1024, status_poll tenant ?l] @ rest"
    by auto
qed

text \<open>
  A 202 without a \<open>Location\<close> header: \<open>self.url + location\<close> raises TypeError before
  any poll is sent.
\<close>

lemma open_steady_state_without_location:
  assumes "srv (sent tr) = Reply r" and "status_code r = 202" and "location r = None"
  shows "open_steady_state srv self p cores mem tr
           = Some (Inl TypeError, tr @ [create_call self cores mem])"
proof -
  have "poll_status srv self None (tr @ [create_call self cores mem])
          = Some (Inl TypeError, tr @ [create_call self cores mem])"
    by (subst poll_status.simps) simp
  with assms show ?thesis
    by (simp add: open_steady_state_def requests_post_def create_call_def)
qed

subsection \<open>SteadyStateModel.run: closing the session\<close>

lemma run_try_extends:
  assumes "run_try srv model ins outs lookup tr = Some y"
  shows "\<exists>rest. snd y = tr @ rest \<and> (\<forall>ev \<in> set rest. \<not> is_delete ev)"
proof -
  let ?vals = "JObj [(''properties'', JList ins)]"
  let ?req = "JObj [(''properties'', JList outs)]"
  from assms obtain z where ran: "SteadyState_run srv model ?vals tr = Some z"
    and y: "snd y = snd z \<or> snd y = snd (query srv model ?req (snd z))"
    by (auto simp: run_try_def split: option.splits sum.splits prod.splits)
  from SteadyState_run_extends [OF ran] obtain rest where
    z: "snd z = tr @ rest" "\<forall>ev \<in> set rest. \<not> is_delete ev" by blast
  from query_extends [of srv model ?req "snd z"] obtain rest' where
    q: "snd (query srv model ?req (snd z)) = snd z @ rest'" "\<forall>ev \<in> set rest'. \<not> is_delete ev"
    by blast
  from y show ?thesis
  proof
    assume "snd y = snd z"
    with z show ?thesis by auto
  next
    assume "snd y = snd (query srv model ?req (snd z))"
    with z q have "snd y = tr @ (rest @ rest') \<and> (\<forall>ev \<in> set (rest @ rest'). \<not> is_delete ev)"
      by auto
    then show ?thesis by blast
  qed
qed

text \<open>
  C1. An execution of \<open>SteadyStateModel.run\<close> that reaches \<open>open_steady_state\<close> (the
  input payload was built) and in which \<open>open_steady_state\<close> returns the session
  \<open>model\<close>, leaving the trace \<open>tr1\<close>. Whenever the call exits, by returning or by
  raising, the trace it leaves is \<open>tr1\<close>, then events that contain no DELETE, then the
  DELETE of \<open>close_steady_state\<close> on that session as the last event: exactly one close
  call. The call fails to exit only when \<open>model.run\<close> never returns.
\<close>

theorem SteadyStateModel_run_closes_once:
  assumes "input_loop (input_defs self) input_values [] = Inr input_prop_payload"
      and "open_steady_state srv (client self) (model_path self) 1 1024 tr = Some (Inr model, tr1)"
  shows "(\<forall>res tr2. SteadyStateModel_run srv self input_values tr = Some (res, tr2) \<longrightarrow>
            (\<exists>mid. tr2 = tr1 @ mid @ [close_call (client self) model]
                   \<and> (\<forall>ev \<in> set mid. \<not> is_delete ev)))
       \<and> ((SteadyStateModel_run srv self input_values tr = None)
            = (SteadyState_run srv model (JObj [(''properties'', JList input_prop_payload)]) tr1
                 = None))"
proof (intro conjI allI impI)
  fix res tr2
  assume exit: "SteadyStateModel_run srv self input_values tr = Some (res, tr2)"
  obtain outs lookup where out: "output_loop (output_defs self) [] [] = (outs, lookup)"
    by (cases "output_loop (output_defs self) [] []") blast
  from exit assms out obtain y where
    body: "run_try srv model input_prop_payload outs lookup tr1 = Some y"
    and closed: "tr2 = snd (close_steady_state srv (client self) model (snd y))"
    by (auto simp: SteadyStateModel_run_def split: option.splits sum.splits prod.splits)
  from run_try_extends [OF body] obtain mid where
    mid: "snd y = tr1 @ mid" "\<forall>ev \<in> set mid. \<not> is_delete ev" by blast
  have "snd (close_steady_state srv (client self) model (snd y))
          = snd y @ [close_call (client self) model]"
    by (auto simp: close_steady_state_def requests_delete_def close_call_def split: reply.splits)
  with closed mid have "tr2 = tr1 @ mid @ [close_call (client self) model]
      \<and> (\<forall>ev \<in> set mid. \<not> is_delete ev)"
    by simp
  then show "\<exists>mid. tr2 = tr1 @ mid @ [close_call (client self) model]
      \<and> (\<forall>ev \<in> set mid. \<not> is_delete ev)"
    by blast
next
  obtain outs lookup where out: "output_loop (output_defs self) [] [] = (outs, lookup)"
    by (cases "output_loop (output_defs self) [] []") blast
  show "(SteadyStateModel_run srv self input_values tr = None)
      = (SteadyState_run srv model (JObj [(''properties'', JList input_prop_payload)]) tr1 = None)"
    using assms out
    by (auto simp: SteadyStateModel_run_def run_try_def
             split: option.splits sum.splits prod.splits)
qed

lemma happy_server_opens:
  "open_steady_state happy_server tenant ''//repo/projA/studyB/caseC'' 1 1024 []
     = Some (Inr engine, opened_trace)"
  by code_simp

lemma run_rejecting_server_opens:
  "open_steady_state run_rejecting_server tenant ''//repo/projA/studyB/caseC'' 1 1024 []
     = Some (Inr engine, opened_trace)"
  by code_simp

lemma query_rejecting_server_opens:
  "open_steady_state query_rejecting_server tenant ''//repo/projA/studyB/caseC'' 1 1024 []
     = Some (Inr engine, opened_trace)"
  by code_simp

lemma bhp_input_payload:
  "input_loop (input_defs bhp_model) bhp_inputs []
     = Inr [JObj [(''propertyPath'', JStr ''Networks/Gas''), (''unit'', JStr ''MMSCF/day''),
                  (''value'', JFloat 2.59)]]"
  by (simp add: bhp_model_def bhp_inputs_def)

lemma happy_server_run:
  "SteadyStateModel_run happy_server bhp_model bhp_inputs []
     = Some (Inr [(''bhp'', JFloat 1234.56)],
         opened_trace @
         [run_post engine (JObj [(''properties'', JList
             [JObj [(''propertyPath'', JStr ''Networks/Gas''), (''unit'', JStr ''MMSCF/day''),
                    (''value'', JFloat 2.59)]])]),
          run_get engine, Sleep 1, run_get engine,
          Request POST (steady_state_url engine @ ''/query'') ''token''
            (Some (JObj [(''properties'', JList
               [JObj [(''propertyPath'', JStr ''Networks/bhp''), (''unit'', JStr ''psi'')]])])),
          close_call tenant engine])"
  by code_simp

lemma run_rejecting_server_run:
  "SteadyStateModel_run run_rejecting_server bhp_model bhp_inputs []
     = Some (Inl SessionError,
         opened_trace @
         [run_post engine (JObj [(''properties'', JList
             [JObj [(''propertyPath'', JStr ''Networks/Gas''), (''unit'', JStr ''MMSCF/day''),
                    (''value'', JFloat 2.59)]])]),
          close_call tenant engine])"
  by code_simp

lemma query_rejecting_server_run:
  "SteadyStateModel_run query_rejecting_server bhp_model bhp_inputs []
     = Some (Inl SessionError,
         opened_trace @
         [run_post engine (JObj [(''properties'', JList
             [JObj [(''propertyPath'', JStr ''Networks/Gas''), (''unit'', JStr ''MMSCF/day''),
                    (''value'', JFloat 2.59)]])]),
          run_get engine,
          Request POST (steady_state_url engine @ ''/query'') ''token''
            (Some (JObj [(''properties'', JList
               [JObj [(''propertyPath'', JStr ''Networks/bhp''), (''unit'', JStr ''psi'')]])])),
          close_call tenant engine])"
  by code_simp
theorem SteadyStateModel_run_closes_once_witness:
  "(\<exists>res tr2 mid. SteadyStateModel_run happy_server bhp_model bhp_inputs [] = Some (res, tr2)
        \<and> tr2 = opened_trace @ mid @ [close_call tenant engine]
        \<and> (\<forall>ev \<in> set mid. \<not> is_delete ev))
   \<and> (\<exists>tr2 mid. SteadyStateModel_run run_rejecting_server bhp_model bhp_inputs []
            = Some (Inl SessionError, tr2)
        \<and> tr2 = opened_trace @ mid @ [close_call tenant engine]
        \<and> (\<forall>ev \<in> set mid. \<not> is_delete ev))
   \<and> (\<exists>tr2 mid. SteadyStateModel_run query_rejecting_server bhp_model bhp_inputs []
            = Some (Inl SessionError, tr2)
        \<and> tr2 = opened_trace @ mid @ [close_call tenant engine]
        \<and> (\<forall>ev \<in> set mid. \<not> is_delete ev))"
proof (intro conjI)
  have opened: "open_steady_state happy_server (client bhp_model) (model_path bhp_model) 1 1024 []
      = Some (Inr engine, opened_trace)"
    using happy_server_opens by (simp add: bhp_model_def)
  from SteadyStateModel_run_closes_once [OF bhp_input_payload opened, THEN conjunct1, rule_format,
      OF happy_server_run]
  show "\<exists>res tr2 mid. SteadyStateModel_run happy_server bhp_model bhp_inputs [] = Some (res, tr2)
        \<and> tr2 = opened_trace @ mid @ [close_call tenant engine]
        \<and> (\<forall>ev \<in> set mid. \<not> is_delete ev)"
    using happy_server_run by (auto simp: bhp_model_def)
next
  have opened: "open_steady_state run_rejecting_server (client bhp_model) (model_path bhp_model)
      1 1024 [] = Some (Inr engine, opened_trace)"
    using run_rejecting_server_opens by (simp add: bhp_model_def)
  from SteadyStateModel_run_closes_once [OF bhp_input_payload opened, THEN conjunct1, rule_format,
      OF run_rejecting_server_run]
  show "\<exists>tr2 mid. SteadyStateModel_run run_rejecting_server bhp_model bhp_inputs []
            = Some (Inl SessionError, tr2)
        \<and> tr2 = opened_trace @ mid @ [close_call tenant engine]
        \<and> (\<forall>ev \<in> set mid. \<not> is_delete ev)"
    using run_rejecting_server_run by (auto simp: bhp_model_def)
next
  have opened: "open_steady_state query_rejecting_server (client bhp_model) (model_path bhp_model)
      1 1024 [] = Some (Inr engine, opened_trace)"
    using query_rejecting_server_opens by (simp add: bhp_model_def)
  from SteadyStateModel_run_closes_once [OF bhp_input_payload opened, THEN conjunct1, rule_format,
      OF query_rejecting_server_run]
  show "\<exists>tr2 mid. SteadyStateModel_run query_rejecting_server bhp_model bhp_inputs []
            = Some (Inl SessionError, tr2)
        \<and> tr2 = opened_trace @ mid @ [close_call tenant engine]
        \<and> (\<forall>ev \<in> set mid. \<not> is_delete ev)"
    using query_rejecting_server_run by (auto simp: bhp_model_def)
qed

subsection \<open>SteadyStateModel.run when no session is opened\<close>

text \<open>
  C9. An execution of \<open>SteadyStateModel.run\<close> that reaches \<open>open_steady_state\<close> and in
  which \<open>open_steady_state\<close> raises, leaving the trace \<open>tr1\<close>: the \<open>finally\<close>
  clause reads the unbound \<open>model\<close>, so the call raises UnboundLocalError, whatever
  \<open>open_steady_state\<close> raised, and leaves the trace \<open>tr1\<close> unchanged: no request is
  sent after \<open>open_steady_state\<close> raised, so \<open>close_steady_state\<close> sends nothing.
\<close>

theorem SteadyStateModel_run_open_raises:
  assumes "input_loop (input_defs self) input_values [] = Inr input_prop_payload"
      and "open_steady_state srv (client self) (model_path self) 1 1024 tr = Some (Inl e, tr1)"
  shows "SteadyStateModel_run srv self input_values tr = Some (Inl UnboundLocalError, tr1)"
proof -
  obtain outs lookup where "output_loop (output_defs self) [] [] = (outs, lookup)"
    by (cases "output_loop (output_defs self) [] []") blast
  with assms show ?thesis
    by (simp add: SteadyStateModel_run_def)
qed

theorem SteadyStateModel_run_open_raises_witness:
  "SteadyStateModel_run (script [status_reply 401]) bhp_model bhp_inputs []
     = Some (Inl UnboundLocalError, [create_call tenant 1 1024])
   \<and> open_steady_state (script [status_reply 401]) tenant ''//repo/projA/studyB/caseC'' 1 1024 []
     = Some (Inl AuthError, [create_call tenant 1 1024])"
proof -
  have raised: "open_steady_state (script [status_reply 401]) tenant
      ''//repo/projA/studyB/caseC'' 1 1024 [] = Some (Inl AuthError, [create_call tenant 1 1024])"
    by code_simp
  then have "open_steady_state (script [status_reply 401]) (client bhp_model)
      (model_path bhp_model) 1 1024 [] = Some (Inl AuthError, [create_call tenant 1 1024])"
    by (simp add: bhp_model_def)
  from SteadyStateModel_run_open_raises [OF bhp_input_payload this] raised
  show ?thesis by simp
qed

subsection \<open>Failure of the init request\<close>

lemma urlsplit_errors: "urlsplit p = Inl e \<Longrightarrow> e = ValueError"
  by (simp add: urlsplit_def split: prod.splits if_splits)

lemma create_init_request_errors:
  assumes "create_init_request p = Inl e"
  shows "e = ValueError \<or> e = IndexError"
proof (cases "urlsplit p")
  case (Inl ex)
  with assms urlsplit_errors [OF Inl] show ?thesis
    by (simp add: create_init_request_def)
next
  case (Inr r)
  with assms show ?thesis
    by (auto simp: create_init_request_def list_index_def Let_def split: sum.splits if_splits)
qed

text \<open>
  Whatever the service answers, the part of \<open>open_steady_state\<close> after the polling loop
  never raises SessionError: when the init POST is answered with a status other than 201,
  the cleanup raises first, AttributeError if the DELETE got a response and the transport's
  exception if it did not.
\<close>

lemma init_steady_state_never_SessionError:
  "fst (init_steady_state srv self p l tr) \<noteq> Inl SessionError"
proof (cases "create_init_request p")
  case (Inl e)
  with create_init_request_errors [OF Inl] show ?thesis
    by (auto simp: init_steady_state_def Let_def)
next
  case (Inr init_request)
  then show ?thesis
    by (auto simp: init_steady_state_def Let_def requests_post_def
          close_state_state_session_def requests_delete_def
          split: reply.splits)
qed

text \<open>
  C3. On a service that rejects the init POST with 500 and answers the cleanup DELETE with
  200 OK, \<open>open_steady_state\<close> sends the cleanup DELETE and then raises AttributeError out
  of \<open>_close_state_state_session\<close>: the failure of the cleanup is not swallowed, and
  SessionError is not raised.
\<close>

theorem open_steady_state_init_rejected:
  "open_steady_state init_rejecting_server tenant ''//repo/projA/studyB/caseC'' 1 1024 []
     = Some (Inl AttributeError,
             opened_trace @ [Request DELETE (steady_state_url engine @ ''/session'') ''token'' None])"
  by code_simp

subsection \<open>Splitting the model path\<close>






















subsection \<open>The lookup from path to alias\<close>




subsection \<open>Translating the query result\<close>













end
